theory Spec2Isabelle
  imports Main "HOL-Library.Sublist"
begin

section \<open>Strings\<close>

text \<open>
  A JavaScript string is a sequence of UTF-16 code units. The strings of
  \<^verbatim>\<open>background.js\<close> and of the settings script are modelled as \<^typ>\<open>string\<close>:
  one \<^typ>\<open>char\<close> per code unit, for the code units U+0000 to U+00FF. On that range
  \<^verbatim>\<open>toLowerCase\<close> maps \<^verbatim>\<open>A-Z\<close> and the Latin-1 capitals U+00C0 to U+00DE (without the
  multiplication sign U+00D7) to the code unit 32 above, and leaves every other code unit
  as it is.
\<close>

definition toLowerCase_char :: "char \<Rightarrow> char" where
  "toLowerCase_char c =
     (let n = (of_char c :: nat)
      in if (65 \<le> n \<and> n \<le> 90) \<or> (192 \<le> n \<and> n \<le> 222 \<and> n \<noteq> 215)
         then char_of (n + 32) else c)"

definition toLowerCase :: "string \<Rightarrow> string" where
  "toLowerCase s = map toLowerCase_char s"

text \<open>
  The class \<^verbatim>\<open>\s\<close> of a regular expression, which is also what \<^verbatim>\<open>trim\<close> removes:
  tab, line feed, vertical tab, form feed, carriage return, space and the no-break space.
  The line terminators, which \<^verbatim>\<open>.\<close> does not match, are line feed and carriage return.
\<close>

definition is_whitespace :: "char \<Rightarrow> bool" where
  "is_whitespace c = (of_char c \<in> {9, 10, 11, 12, 13, 32, 160 :: nat})"

definition is_line_terminator :: "char \<Rightarrow> bool" where
  "is_line_terminator c = (of_char c \<in> {10, 13 :: nat})"

definition trim :: "string \<Rightarrow> string" where
  "trim s = rev (dropWhile is_whitespace (rev (dropWhile is_whitespace s)))"

text \<open>\<^verbatim>\<open>s.includes(p)\<close>: \<open>p\<close> occurs in \<open>s\<close> as a contiguous run.\<close>

fun str_includes :: "string \<Rightarrow> string \<Rightarrow> bool" where
  "str_includes [] p = (p = [])"
| "str_includes (c # cs) p = (prefix p (c # cs) \<or> str_includes cs p)"

section \<open>Settings\<close>

datatype token_type = Bearer | Session | Custom

datatype token_source = Headers | Storage | Cookies

record settings =
  tokenType :: token_type
  customHeaderName :: string
  tokenSource :: token_source
  maxTokens :: int
  autoCleanup :: bool

definition DEFAULT_SETTINGS :: settings where
  "DEFAULT_SETTINGS =
     \<lparr>tokenType = Bearer, customHeaderName = [], tokenSource = Headers,
      maxTokens = 5, autoCleanup = True\<rparr>"

section \<open>State of the service worker\<close>

text \<open>
  \<^verbatim>\<open>detectedTokens\<close> is a \<^verbatim>\<open>Map\<close> from token to \<^verbatim>\<open>{url, timestamp}\<close>. A JavaScript
  \<^verbatim>\<open>Map\<close> iterates in insertion order, so it is an association list here: \<^verbatim>\<open>has\<close>
  looks a key up, \<^verbatim>\<open>set\<close> overwrites the value of a key that is present and appends a
  key that is not, \<^verbatim>\<open>size\<close> is the length.
\<close>

record token_data =
  url :: string
  timestamp :: nat

type_synonym token_map = "(string \<times> token_data) list"

definition map_has :: "token_map \<Rightarrow> string \<Rightarrow> bool" where
  "map_has m k = (k \<in> set (map fst m))"

fun map_set :: "token_map \<Rightarrow> string \<Rightarrow> token_data \<Rightarrow> token_map" where
  "map_set [] k v = [(k, v)]"
| "map_set ((k', v') # m) k v =
     (if k' = k then (k, v) # m else (k', v') # map_set m k v)"

text \<open>
  The state: the two globals of \<^verbatim>\<open>background.js\<close>, the \<^verbatim>\<open>settings\<close> item of
  \<^verbatim>\<open>chrome.storage.local\<close> (absent until the first save) and the \<^verbatim>\<open>tokens\<close> item of
  \<^verbatim>\<open>chrome.storage.session\<close> (the copy written by \<^verbatim>\<open>persistTokens\<close>).
\<close>

record state =
  detectedTokens :: token_map
  activeTabId :: "int option"
  local_settings :: "settings option"
  session_tokens :: "token_map option"

definition initial_state :: state where
  "initial_state =
     \<lparr>detectedTokens = [], activeTabId = None, local_settings = None,
      session_tokens = None\<rparr>"

definition getSettings :: "state \<Rightarrow> settings" where
  "getSettings s = (case local_settings s of None \<Rightarrow> DEFAULT_SETTINGS | Some st \<Rightarrow> st)"

definition saveSettings :: "settings \<Rightarrow> state \<Rightarrow> state" where
  "saveSettings st s = s\<lparr>local_settings := Some st\<rparr>"

definition persistTokens :: "state \<Rightarrow> state" where
  "persistTokens s = s\<lparr>session_tokens := Some (detectedTokens s)\<rparr>"

section \<open>Token extraction from headers\<close>

record header =
  header_name :: string
  header_value :: string

text \<open>
  \<^verbatim>\<open>value.match(/^Bearer\s+(.+)$/i)\<close>. The prefix is compared letter by letter without
  regard to case. Then \<^verbatim>\<open>\s+\<close> is greedy: it first takes the whole run of white space and
  gives characters back one at a time, down to one, until \<^verbatim>\<open>(.+)$\<close> matches what is left,
  which it does when what is left is not empty and holds no line terminator.
\<close>

definition ascii_upper :: "char \<Rightarrow> char" where
  "ascii_upper c =
     (let n = (of_char c :: nat) in if 97 \<le> n \<and> n \<le> 122 then char_of (n - 32) else c)"

definition match_dot_plus_end :: "string \<Rightarrow> string option" where
  "match_dot_plus_end s =
     (if s \<noteq> [] \<and> list_all (\<lambda>c. \<not> is_line_terminator c) s then Some s else None)"

fun match_ws_plus :: "nat \<Rightarrow> string \<Rightarrow> string option" where
  "match_ws_plus 0 s = None"
| "match_ws_plus (Suc j) s =
     (case match_dot_plus_end (drop (Suc j) s) of
        Some t \<Rightarrow> Some t
      | None \<Rightarrow> match_ws_plus j s)"

definition bearer_match :: "string \<Rightarrow> string option" where
  "bearer_match v =
     (if 6 \<le> length v \<and> map ascii_upper (take 6 v) = ''BEARER''
      then match_ws_plus (length (takeWhile is_whitespace (drop 6 v))) (drop 6 v)
      else None)"

fun header_loop :: "settings \<Rightarrow> header list \<Rightarrow> string option" where
  "header_loop st [] = None"
| "header_loop st (h # rest) =
     (let name = toLowerCase (header_name h); v = header_value h
      in case tokenType st of
           Bearer \<Rightarrow>
             (if name = ''authorization''
              then (case bearer_match v of
                      Some m \<Rightarrow> Some m
                    | None \<Rightarrow> header_loop st rest)
              else header_loop st rest)
         | Session \<Rightarrow>
             (if name = ''x-session-token'' \<or> name = ''session-token''
                 \<or> name = ''x-session-id''
              then Some v
              else header_loop st rest)
         | Custom \<Rightarrow>
             (if customHeaderName st \<noteq> []
                 \<and> name = toLowerCase (customHeaderName st)
              then Some v
              else header_loop st rest))"

text \<open>\<^verbatim>\<open>requestHeaders\<close> may be absent: the function then returns \<^verbatim>\<open>null\<close>.\<close>

definition extractTokenFromHeaders :: "header list option \<Rightarrow> settings \<Rightarrow> string option" where
  "extractTokenFromHeaders headers st =
     (case headers of None \<Rightarrow> None | Some hs \<Rightarrow> header_loop st hs)"

section \<open>Token storage and de-duplication\<close>

text \<open>
  \<^verbatim>\<open>addToken\<close> returns nothing in the source. The model also returns which of its three
  exits was taken, under the names the specification gives them.
\<close>

datatype outcome = Accepted | DuplicateIgnored | CapacityReached

definition addToken :: "string \<Rightarrow> string \<Rightarrow> int \<Rightarrow> nat \<Rightarrow> state \<Rightarrow> outcome \<times> state" where
  "addToken token u maxT now s =
     (if map_has (detectedTokens s) token then (DuplicateIgnored, s)
      else if maxT \<le> int (length (detectedTokens s)) then (CapacityReached, s)
      else (Accepted,
            persistTokens
              (s\<lparr>detectedTokens :=
                   map_set (detectedTokens s) token \<lparr>url = u, timestamp = now\<rparr>\<rparr>)))"

section \<open>Web request listener\<close>

definition handleWebRequest ::
  "int \<Rightarrow> string \<Rightarrow> header list option \<Rightarrow> nat \<Rightarrow> state \<Rightarrow> state" where
  "handleWebRequest tabId u requestHeaders now s =
     (if Some tabId \<noteq> activeTabId s then s
      else let st = getSettings s
           in if tokenSource st \<noteq> Headers then s
              else (case extractTokenFromHeaders requestHeaders st of
                      None \<Rightarrow> s
                    | Some token \<Rightarrow>
                        if token = [] then s
                        else snd (addToken token u (maxTokens st) now s)))"

section \<open>Active tab tracking\<close>

definition clear_and_persist :: "state \<Rightarrow> state" where
  "clear_and_persist s = persistTokens (s\<lparr>detectedTokens := []\<rparr>)"

text \<open>The argument of \<open>updateActiveTab\<close> is what the tab query answers: a tab id, or no tab.\<close>

definition updateActiveTab :: "int option \<Rightarrow> state \<Rightarrow> state" where
  "updateActiveTab tab s =
     (case tab of
        None \<Rightarrow> s
      | Some i \<Rightarrow>
          if Some i \<noteq> activeTabId s
          then clear_and_persist (s\<lparr>activeTabId := Some i\<rparr>)
          else s)"

definition onActivated :: "int \<Rightarrow> state \<Rightarrow> state" where
  "onActivated tabId s = clear_and_persist (s\<lparr>activeTabId := Some tabId\<rparr>)"

text \<open>The flag of \<open>onUpdated\<close> is \<^verbatim>\<open>changeInfo.status === 'loading'\<close>.\<close>

definition onUpdated :: "int \<Rightarrow> bool \<Rightarrow> state \<Rightarrow> state" where
  "onUpdated tabId loading s =
     (if Some tabId = activeTabId s \<and> loading then clear_and_persist s else s)"

section \<open>Storage and cookie extraction\<close>

record page =
  localStorage :: "(string \<times> string) list"
  sessionStorage :: "(string \<times> string) list"

record cookie =
  cookie_name :: string
  cookie_value :: string

definition storage_patterns :: "token_type \<Rightarrow> string \<Rightarrow> string list" where
  "storage_patterns tt custom =
     (case tt of
        Bearer \<Rightarrow> [''token'', ''access_token'', ''accessToken'', ''auth_token'',
                   ''authToken'', ''bearer'']
      | Session \<Rightarrow> [''session'', ''sessionToken'', ''session_token'', ''sessionId'',
                    ''session_id'']
      | Custom \<Rightarrow> (if custom \<noteq> [] then [toLowerCase custom] else []))"

definition cookie_patterns :: "token_type \<Rightarrow> string \<Rightarrow> string list" where
  "cookie_patterns tt custom =
     (case tt of
        Bearer \<Rightarrow> [''token'', ''access_token'', ''auth_token'', ''bearer'', ''jwt'']
      | Session \<Rightarrow> [''session'', ''sessionid'', ''session_id'', ''sid'']
      | Custom \<Rightarrow> (if custom \<noteq> [] then [toLowerCase custom] else []))"

text \<open>
  The inner loop over the patterns: at the first pattern the lower-cased name contains,
  the value is pushed if it is longer than 10, and the loop ends either way. The value is
  what \<^verbatim>\<open>getItem\<close> answered (or the cookie's value); the label is the stored \<^verbatim>\<open>url\<close>.
\<close>

fun pattern_loop :: "string \<Rightarrow> string option \<Rightarrow> string \<Rightarrow> string list \<Rightarrow> (string \<times> string) list" where
  "pattern_loop nameLower item label [] = []"
| "pattern_loop nameLower item label (pattern # rest) =
     (if str_includes nameLower (toLowerCase pattern)
      then (case item of
              None \<Rightarrow> []
            | Some v \<Rightarrow> if v \<noteq> [] \<and> 10 < length v then [(v, label)] else [])
      else pattern_loop nameLower item label rest)"

definition scan_store :: "string \<Rightarrow> (string \<times> string) list \<Rightarrow> string list \<Rightarrow> (string \<times> string) list" where
  "scan_store kind store searchPatterns =
     concat (map (\<lambda>key. pattern_loop (toLowerCase key) (map_of store key)
                          (kind @ '':'' @ key) searchPatterns)
                 (map fst store))"

text \<open>
  The page is what the injected script sees in the tab; \<open>None\<close> stands for a script
  injection that fails, which the source catches and answers with the empty list.
\<close>

definition extractTokensFromStorage :: "page option \<Rightarrow> settings \<Rightarrow> (string \<times> string) list" where
  "extractTokensFromStorage pg st =
     (case pg of
        None \<Rightarrow> []
      | Some p \<Rightarrow>
          (let searchPatterns = storage_patterns (tokenType st) (customHeaderName st)
           in scan_store ''localStorage'' (localStorage p) searchPatterns
              @ scan_store ''sessionStorage'' (sessionStorage p) searchPatterns))"

definition extractTokensFromCookies :: "cookie list option \<Rightarrow> settings \<Rightarrow> (string \<times> string) list" where
  "extractTokensFromCookies cs st =
     (case cs of
        None \<Rightarrow> []
      | Some cookies \<Rightarrow>
          (let searchPatterns = cookie_patterns (tokenType st) (customHeaderName st)
           in concat (map (\<lambda>c. pattern_loop (toLowerCase (cookie_name c))
                                  (Some (cookie_value c))
                                  (''cookie:'' @ cookie_name c) searchPatterns)
                          cookies)))"

section \<open>Message handling\<close>

record scan_env =
  env_page :: "page option"
  env_tab_url :: "string option"
  env_cookies :: "cookie list option"

fun add_all :: "(string \<times> string) list \<Rightarrow> int \<Rightarrow> nat \<Rightarrow> state \<Rightarrow> state" where
  "add_all [] maxT now s = s"
| "add_all ((token, u) # items) maxT now s =
     add_all items maxT now (snd (addToken token u maxT now s))"

definition GET_TOKENS :: "state \<Rightarrow> token_map" where
  "GET_TOKENS s = detectedTokens s"

definition SCAN_STORAGE :: "scan_env \<Rightarrow> nat \<Rightarrow> state \<Rightarrow> state" where
  "SCAN_STORAGE env now s =
     (let st = getSettings s;
          foundTokens =
            (if tokenSource st = Storage then extractTokensFromStorage (env_page env) st
             else if tokenSource st = Cookies
             then (case env_tab_url env of
                     None \<Rightarrow> []
                   | Some u \<Rightarrow>
                       if u \<noteq> [] then extractTokensFromCookies (env_cookies env) st
                       else [])
             else [])
      in add_all foundTokens (maxTokens st) now s)"

definition CLEAR_DATA :: "state \<Rightarrow> state" where
  "CLEAR_DATA s = persistTokens (s\<lparr>detectedTokens := [], session_tokens := None\<rparr>)"

definition SAVE_SETTINGS :: "settings \<Rightarrow> state \<Rightarrow> state" where
  "SAVE_SETTINGS st s = clear_and_persist (saveSettings st s)"

section \<open>Browser window close cleanup\<close>

text \<open>The argument is the number of windows that remain.\<close>

definition onRemoved :: "nat \<Rightarrow> state \<Rightarrow> state" where
  "onRemoved remaining s =
     (if remaining = 0 \<and> autoCleanup (getSettings s)
      then s\<lparr>detectedTokens := [], session_tokens := None\<rparr>
      else s)"

section \<open>Events\<close>

text \<open>
  Each listener runs to its end before the next event is taken. An event carries what the
  listener reads from outside: its arguments, the clock, the answer of a query.
\<close>

datatype event =
    WebRequest int string "header list option" nat
  | TabQueried "int option"
  | TabActivated int
  | TabUpdated int bool
  | ScanStorage scan_env nat
  | ClearData
  | SaveSettings settings
  | WindowRemoved nat

fun handle :: "event \<Rightarrow> state \<Rightarrow> state" where
  "handle (WebRequest tabId u hs now) s = handleWebRequest tabId u hs now s"
| "handle (TabQueried tab) s = updateActiveTab tab s"
| "handle (TabActivated tabId) s = onActivated tabId s"
| "handle (TabUpdated tabId loading) s = onUpdated tabId loading s"
| "handle (ScanStorage env now) s = SCAN_STORAGE env now s"
| "handle ClearData s = CLEAR_DATA s"
| "handle (SaveSettings st) s = SAVE_SETTINGS st s"
| "handle (WindowRemoved n) s = onRemoved n s"

fun run :: "event list \<Rightarrow> state \<Rightarrow> state" where
  "run [] s = s"
| "run (e # es) s = run es (handle e s)"

section \<open>Settings form\<close>

text \<open>
  The submit handler of the settings page. The form holds the checked token type and
  source, the slider value as \<^verbatim>\<open>parseInt\<close> reads it, the text of the header-name input
  and the auto-cleanup box. The handler either shows a validation message and returns, or
  sends \<^verbatim>\<open>SAVE_SETTINGS\<close> with the settings it has built.
\<close>

record settings_form =
  form_tokenType :: token_type
  form_tokenSource :: token_source
  form_maxTokens :: int
  form_customHeaderName :: string
  form_autoCleanup :: bool

definition form_settings :: "settings_form \<Rightarrow> settings" where
  "form_settings f =
     (let maxT = form_maxTokens f;
          maxT = (if 5 < maxT then 5 else maxT);
          maxT = (if maxT < 1 then 1 else maxT)
      in \<lparr>tokenType = form_tokenType f,
          customHeaderName =
            (if form_tokenType f = Custom then trim (form_customHeaderName f) else []),
          tokenSource = form_tokenSource f,
          maxTokens = maxT,
          autoCleanup = form_autoCleanup f\<rparr>)"

datatype submit_status = Rejected string | Saved

definition submit :: "settings_form \<Rightarrow> state \<Rightarrow> submit_status \<times> state" where
  "submit f s =
     (let st = form_settings f
      in if form_tokenType f = Custom \<and> customHeaderName st = []
         then (Rejected ''Please enter a custom header name'', s)
         else (Saved, SAVE_SETTINGS st s))"

section \<open>Token masking in the popup\<close>

text \<open>
  The popup's strings are lists of UTF-16 code units, since the mask is not Latin-1.
  \<open>mask_unit\<close> is the string literal that \<^verbatim>\<open>maskToken\<close> repeats, as the file stores it:
  the bullet U+2022, whose three UTF-8 bytes the file holds re-encoded as U+201A, U+00C4
  and U+00A2.
\<close>

type_synonym code_units = "nat list"

definition mask_unit :: code_units where
  "mask_unit = [8218, 196, 162]"

text \<open>
  \<^verbatim>\<open>slice(start, end)\<close>: a negative index counts from the end, both indices are clamped
  to the string, and an absent \<^verbatim>\<open>end\<close> is the length. \<^verbatim>\<open>repeat\<close> throws a
  \<^verbatim>\<open>RangeError\<close> on a negative count.
\<close>

definition slice :: "'a list \<Rightarrow> int \<Rightarrow> int option \<Rightarrow> 'a list" where
  "slice s start fin =
     (let len = int (length s);
          from = (if start < 0 then max (len + start) 0 else min start len);
          to = (case fin of
                  None \<Rightarrow> len
                | Some e \<Rightarrow> if e < 0 then max (len + e) 0 else min e len)
      in take (nat (to - from)) (drop (nat from) s))"

definition repeat :: "'a list \<Rightarrow> int \<Rightarrow> 'a list option" where
  "repeat s count = (if count < 0 then None else Some (concat (replicate (nat count) s)))"

definition maskToken :: "code_units \<Rightarrow> code_units option" where
  "maskToken token =
     (if token = [] \<or> length token < 12
      then Some (concat (replicate 12 mask_unit))
      else (let visibleStart = 4; visibleEnd = 4
            in case repeat mask_unit
                      (min 20 (int (length token) - visibleStart - visibleEnd)) of
                 None \<Rightarrow> None
               | Some masked \<Rightarrow>
                   Some (slice token 0 (Some visibleStart) @ masked
                         @ slice token (- visibleEnd) None)))"

text \<open>A Latin-1 string as code units.\<close>

definition code_units_of :: "string \<Rightarrow> code_units" where
  "code_units_of s = map of_char s"

section \<open>Properties stated about runs\<close>

text \<open>An event keeps the capacity \<open>k\<close> when it is not a settings save with another one.\<close>

fun keeps_policy :: "int \<Rightarrow> event \<Rightarrow> bool" where
  "keeps_policy k (SaveSettings st) = (maxTokens st = k)"
| "keeps_policy k e = True"

definition cap_inv :: "int \<Rightarrow> state \<Rightarrow> bool" where
  "cap_inv k s = (maxTokens (getSettings s) = k \<and> int (length (detectedTokens s)) \<le> k)"

text \<open>The events that feed tokens to the collection: a web request and a scan.\<close>

fun is_ingest :: "event \<Rightarrow> bool" where
  "is_ingest (WebRequest tabId u hs now) = True"
| "is_ingest (ScanStorage env now) = True"
| "is_ingest e = False"

definition tokens_nonempty :: "state \<Rightarrow> bool" where
  "tokens_nonempty s = list_all (\<lambda>t. t \<noteq> []) (map fst (detectedTokens s))"

definition bearer_header :: "string \<Rightarrow> header" where
  "bearer_header t = \<lparr>header_name = ''Authorization'', header_value = ''Bearer '' @ t\<rparr>"

text \<open>
  A state and a request for worked examples: tab 7 is active, the saved settings are the
  defaults with capacity \<open>k\<close>, and a request of tab 7 carries one bearer header.
\<close>

definition example_state :: "int \<Rightarrow> state" where
  "example_state k =
     \<lparr>detectedTokens = [], activeTabId = Some 7,
      local_settings = Some (DEFAULT_SETTINGS\<lparr>maxTokens := k\<rparr>),
      session_tokens = None\<rparr>"

definition bearer_request :: "string \<Rightarrow> string \<Rightarrow> nat \<Rightarrow> event" where
  "bearer_request u t now = WebRequest 7 u (Some [bearer_header t]) now"

text \<open>
  The collection holds token \<open>t\<close>, its entries are \<open>es\<close> and its lookup is \<open>d\<close>.
\<close>

definition holds_token :: "string \<Rightarrow> (string \<times> token_data) list \<Rightarrow> token_data option \<Rightarrow> state \<Rightarrow> bool" where
  "holds_token t es d s =
     (map_has (detectedTokens s) t
      \<and> filter (\<lambda>e. fst e = t) (detectedTokens s) = es
      \<and> map_of (detectedTokens s) t = d)"

section \<open>Shared lemmas\<close>

lemma map_set_fresh: "\<not> map_has m k \<Longrightarrow> map_set m k v = m @ [(k, v)]"
  by (induction m) (auto simp: map_has_def)

lemma addToken_eq:
  "addToken t u k now s =
     (if map_has (detectedTokens s) t then (DuplicateIgnored, s)
      else if k \<le> int (length (detectedTokens s)) then (CapacityReached, s)
      else (Accepted,
            s\<lparr>detectedTokens := detectedTokens s @ [(t, \<lparr>url = u, timestamp = now\<rparr>)],
              session_tokens := Some (detectedTokens s @ [(t, \<lparr>url = u, timestamp = now\<rparr>)])\<rparr>))"
  by (simp add: addToken_def persistTokens_def map_set_fresh)

lemma addToken_settings [simp]:
  "local_settings (snd (addToken t u k now s)) = local_settings s"
  by (simp add: addToken_eq)

lemma addToken_activeTabId [simp]:
  "activeTabId (snd (addToken t u k now s)) = activeTabId s"
  by (simp add: addToken_eq)

lemma addToken_size:
  "int (length (detectedTokens s)) \<le> k \<Longrightarrow>
   int (length (detectedTokens (snd (addToken t u k now s)))) \<le> k"
  by (simp add: addToken_eq)

lemma add_all_settings [simp]:
  "local_settings (add_all items k now s) = local_settings s"
  by (induction items k now s rule: add_all.induct) simp_all

lemma add_all_activeTabId [simp]:
  "activeTabId (add_all items k now s) = activeTabId s"
  by (induction items k now s rule: add_all.induct) simp_all

lemma add_all_size:
  "int (length (detectedTokens s)) \<le> k \<Longrightarrow>
   int (length (detectedTokens (add_all items k now s))) \<le> k"
  by (induction items k now s rule: add_all.induct) (simp_all add: addToken_size)

lemma addToken_getSettings [simp]: "getSettings (snd (addToken t u k now s)) = getSettings s"
  by (simp add: getSettings_def)

lemma add_all_getSettings [simp]: "getSettings (add_all items k now s) = getSettings s"
  by (simp add: getSettings_def)

lemma clear_and_persist_simps [simp]:
  "detectedTokens (clear_and_persist s) = []"
  "session_tokens (clear_and_persist s) = Some []"
  "activeTabId (clear_and_persist s) = activeTabId s"
  "local_settings (clear_and_persist s) = local_settings s"
  by (simp_all add: clear_and_persist_def persistTokens_def)

lemma clear_and_persist_getSettings [simp]:
  "getSettings (clear_and_persist s) = getSettings s"
  by (simp add: getSettings_def)

section \<open>The size bound\<close>

lemma handleWebRequest_cap_inv:
  "cap_inv k s \<Longrightarrow> cap_inv k (handleWebRequest tabId u hs now s)"
  by (simp add: cap_inv_def handleWebRequest_def Let_def addToken_size split: option.splits)

lemma SCAN_STORAGE_cap_inv: "cap_inv k s \<Longrightarrow> cap_inv k (SCAN_STORAGE env now s)"
  by (simp add: cap_inv_def SCAN_STORAGE_def Let_def add_all_size)

lemma handle_cap_inv:
  assumes "0 \<le> k" "cap_inv k s" "keeps_policy k e"
  shows "cap_inv k (handle e s)"
proof (cases e)
  case (WebRequest tabId u hs now)
  then show ?thesis using assms by (simp add: handleWebRequest_cap_inv)
next
  case (TabQueried tab)
  then show ?thesis using assms
    by (simp add: cap_inv_def updateActiveTab_def getSettings_def split: option.splits)
next
  case (TabActivated tabId)
  then show ?thesis using assms
    by (simp add: cap_inv_def onActivated_def getSettings_def)
next
  case (TabUpdated tabId loading)
  then show ?thesis using assms
    by (simp add: cap_inv_def onUpdated_def)
next
  case (ScanStorage env now)
  then show ?thesis using assms by (simp add: SCAN_STORAGE_cap_inv)
next
  case ClearData
  then show ?thesis using assms
    by (simp add: cap_inv_def CLEAR_DATA_def persistTokens_def getSettings_def)
next
  case (SaveSettings st)
  then show ?thesis using assms
    by (simp add: cap_inv_def SAVE_SETTINGS_def saveSettings_def getSettings_def)
next
  case (WindowRemoved n)
  then show ?thesis using assms
    by (simp add: cap_inv_def onRemoved_def getSettings_def)
qed

lemma run_cap_inv:
  "0 \<le> k \<Longrightarrow> cap_inv k s \<Longrightarrow> list_all (keeps_policy k) es \<Longrightarrow> cap_inv k (run es s)"
  by (induction es arbitrary: s) (simp_all add: handle_cap_inv)

lemma list_all_take: "list_all P xs \<Longrightarrow> list_all P (take n xs)"
  by (auto simp: list_all_iff dest: in_set_takeD)

text \<open>
  C1. Under a policy of capacity \<open>k\<close> that the events keep, the collection never holds
  more than \<open>k\<close> entries, after the whole sequence and after each of its prefixes; and at
  \<open>k\<close> entries \<open>addToken\<close> of a token that is not stored leaves by its capacity exit with
  the state as it was.
\<close>

theorem size_never_exceeds_maxTokens:
  assumes "0 \<le> k" and "maxTokens (getSettings s) = k"
    and "int (length (detectedTokens s)) \<le> k" and "list_all (keeps_policy k) es"
  shows "(\<forall>n. int (length (detectedTokens (run (take n es) s))) \<le> k)
       \<and> int (length (detectedTokens (run es s))) \<le> k
       \<and> (int (length (detectedTokens (run es s))) = k
            \<and> \<not> map_has (detectedTokens (run es s)) t
          \<longrightarrow> addToken t u k now (run es s) = (CapacityReached, run es s))"
proof -
  have inv: "cap_inv k s" using assms by (simp add: cap_inv_def)
  have "\<And>n. cap_inv k (run (take n es) s)"
    using assms(1,4) inv by (simp add: run_cap_inv list_all_take)
  moreover have "cap_inv k (run es s)"
    using assms(1,4) inv by (simp add: run_cap_inv)
  ultimately show ?thesis
    by (simp add: cap_inv_def addToken_eq)
qed

theorem size_never_exceeds_maxTokens_witness:
  "detectedTokens
     (run [bearer_request ''https://api.test/a'' ''abc123xyz789'' 1,
           bearer_request ''https://api.test/b'' ''second-token'' 2] (example_state 1))
     = [(''abc123xyz789'', \<lparr>url = ''https://api.test/a'', timestamp = 1\<rparr>)]
   \<and> addToken ''third-token'' ''https://api.test/c'' 1 3
        (run [bearer_request ''https://api.test/a'' ''abc123xyz789'' 1,
              bearer_request ''https://api.test/b'' ''second-token'' 2] (example_state 1))
      = (CapacityReached,
         run [bearer_request ''https://api.test/a'' ''abc123xyz789'' 1,
              bearer_request ''https://api.test/b'' ''second-token'' 2] (example_state 1))"
proof -
  let ?es = "[bearer_request ''https://api.test/a'' ''abc123xyz789'' 1,
              bearer_request ''https://api.test/b'' ''second-token'' 2]"
  have r: "detectedTokens (run ?es (example_state 1))
     = [(''abc123xyz789'', \<lparr>url = ''https://api.test/a'', timestamp = 1\<rparr>)]"
    by code_simp
  have h1: "(0::int) \<le> 1" by simp
  have h2: "maxTokens (getSettings (example_state 1)) = 1" by code_simp
  have h3: "int (length (detectedTokens (example_state 1))) \<le> 1" by code_simp
  have h4: "list_all (keeps_policy 1) ?es" by code_simp
  have h5: "\<not> map_has (detectedTokens (run ?es (example_state 1))) ''third-token''"
    by code_simp
  show ?thesis
    using size_never_exceeds_maxTokens [OF h1 h2 h3 h4, of "''third-token''" "''https://api.test/c''" 3] r h5
    by simp
qed

section \<open>De-duplication\<close>

lemma addToken_keeps_entries:
  assumes "map_has (detectedTokens s) t"
  shows "filter (\<lambda>e. fst e = t) (detectedTokens (snd (addToken t' u' k' now' s)))
           = filter (\<lambda>e. fst e = t) (detectedTokens s)
       \<and> map_of (detectedTokens (snd (addToken t' u' k' now' s))) t
           = map_of (detectedTokens s) t
       \<and> map_has (detectedTokens (snd (addToken t' u' k' now' s))) t"
proof -
  have "map_of (detectedTokens s) t \<noteq> None"
    using assms by (simp add: map_has_def map_of_eq_None_iff)
  then show ?thesis
    using assms by (auto simp: addToken_eq map_has_def map_add_def split: option.splits)
qed

lemma addToken_holds:
  "holds_token t es d s \<Longrightarrow> holds_token t es d (snd (addToken t' u' k' now' s))"
  using addToken_keeps_entries [of s t t' u' k' now'] by (simp add: holds_token_def)

lemma add_all_holds:
  "holds_token t es d s \<Longrightarrow> holds_token t es d (add_all items k now s)"
  by (induction items k now s rule: add_all.induct) (simp_all add: addToken_holds)

lemma ingest_holds:
  assumes "holds_token t es d s" "is_ingest e"
  shows "holds_token t es d (handle e s)"
proof (cases e)
  case (WebRequest tabId u hs now)
  then show ?thesis using assms(1)
    by (simp add: handleWebRequest_def Let_def addToken_holds split: option.splits)
next
  case (ScanStorage env now)
  then show ?thesis using assms(1)
    by (simp add: SCAN_STORAGE_def Let_def add_all_holds)
qed (use assms(2) in simp_all)

lemma run_ingest_holds:
  "holds_token t es d s \<Longrightarrow> list_all is_ingest evs \<Longrightarrow> holds_token t es d (run evs s)"
  by (induction evs arbitrary: s) (simp_all add: ingest_holds)

lemma accepted_holds:
  assumes "addToken t u k now s = (Accepted, s1)"
  shows "holds_token t [(t, \<lparr>url = u, timestamp = now\<rparr>)] (Some \<lparr>url = u, timestamp = now\<rparr>) s1"
proof -
  have nh: "\<not> map_has (detectedTokens s) t"
    using assms by (auto simp: addToken_eq split: if_splits)
  then have "filter (\<lambda>e. fst e = t) (detectedTokens s) = []"
    by (auto simp: map_has_def filter_empty_conv)
  moreover have "map_of (detectedTokens s) t = None"
    using nh by (simp add: map_has_def map_of_eq_None_iff)
  moreover have "s1 = s\<lparr>detectedTokens := detectedTokens s @ [(t, \<lparr>url = u, timestamp = now\<rparr>)],
              session_tokens := Some (detectedTokens s @ [(t, \<lparr>url = u, timestamp = now\<rparr>)])\<rparr>"
    using assms by (auto simp: addToken_eq split: if_splits)
  ultimately show ?thesis
    by (simp add: holds_token_def map_has_def map_add_def)
qed

text \<open>
  C2. Once a token has been accepted with a source, then after any further web requests
  and scans the collection holds exactly one entry for it, that entry still has the
  source and time of the accepted occurrence, and \<open>addToken\<close> of the same token, with
  any source and under any capacity, leaves by its duplicate exit with the state as it was.
\<close>

theorem duplicate_token_kept_once:
  assumes "addToken t u k now s = (Accepted, s1)" and "list_all is_ingest es"
  shows "length (filter (\<lambda>e. fst e = t) (detectedTokens (run es s1))) = 1
       \<and> map_of (detectedTokens (run es s1)) t = Some \<lparr>url = u, timestamp = now\<rparr>
       \<and> addToken t u' k' now' (run es s1) = (DuplicateIgnored, run es s1)"
proof -
  have "holds_token t [(t, \<lparr>url = u, timestamp = now\<rparr>)] (Some \<lparr>url = u, timestamp = now\<rparr>)
          (run es s1)"
    using accepted_holds [OF assms(1)] assms(2) by (rule run_ingest_holds)
  then show ?thesis
    by (simp add: holds_token_def addToken_eq)
qed

theorem duplicate_token_kept_once_witness:
  "detectedTokens
     (run [bearer_request ''https://api.test/b'' ''abc123xyz789'' 2,
           bearer_request ''https://api.test/c'' ''another-token'' 3]
        (snd (addToken ''abc123xyz789'' ''https://api.test/a'' 1 1 (example_state 1))))
     = [(''abc123xyz789'', \<lparr>url = ''https://api.test/a'', timestamp = 1\<rparr>)]
   \<and> fst (addToken ''abc123xyz789'' ''https://api.test/d'' 1 4
        (run [bearer_request ''https://api.test/b'' ''abc123xyz789'' 2,
              bearer_request ''https://api.test/c'' ''another-token'' 3]
           (snd (addToken ''abc123xyz789'' ''https://api.test/a'' 1 1 (example_state 1)))))
      = DuplicateIgnored"
proof -
  let ?s1 = "snd (addToken ''abc123xyz789'' ''https://api.test/a'' 1 1 (example_state 1))"
  let ?es = "[bearer_request ''https://api.test/b'' ''abc123xyz789'' 2,
              bearer_request ''https://api.test/c'' ''another-token'' 3]"
  have h1: "addToken ''abc123xyz789'' ''https://api.test/a'' 1 1 (example_state 1)
              = (Accepted, ?s1)"
    by code_simp
  have h2: "list_all is_ingest ?es" by code_simp
  have r: "detectedTokens (run ?es ?s1)
     = [(''abc123xyz789'', \<lparr>url = ''https://api.test/a'', timestamp = 1\<rparr>)]"
    by code_simp
  show ?thesis
    using duplicate_token_kept_once [OF h1 h2, of "''https://api.test/d''" 1 4] r
    by simp
qed

section \<open>Policy change\<close>

text \<open>
  C6. A settings save replaces the policy and leaves the collection empty: the token map,
  the answer to \<open>GET_TOKENS\<close> and the persisted copy are all empty afterwards; the same
  holds for every form submission that is saved.
\<close>

theorem policy_change_empties_collection:
  "getSettings (handle (SaveSettings st) s) = st
   \<and> detectedTokens (handle (SaveSettings st) s) = []
   \<and> GET_TOKENS (handle (SaveSettings st) s) = []
   \<and> session_tokens (handle (SaveSettings st) s) = Some []
   \<and> (fst (submit f s) = Saved \<longrightarrow>
        GET_TOKENS (snd (submit f s)) = [] \<and> session_tokens (snd (submit f s)) = Some [])"
  by (simp add: SAVE_SETTINGS_def saveSettings_def getSettings_def GET_TOKENS_def submit_def
        Let_def)

theorem policy_change_empties_collection_witness:
  "GET_TOKENS (run [bearer_request ''https://api.test/a'' ''abc123xyz789'' 1] (example_state 2))
     = [(''abc123xyz789'', \<lparr>url = ''https://api.test/a'', timestamp = 1\<rparr>)]
   \<and> GET_TOKENS
        (snd (submit \<lparr>form_tokenType = Session, form_tokenSource = Headers,
                      form_maxTokens = 3, form_customHeaderName = [],
                      form_autoCleanup = True\<rparr>
                (run [bearer_request ''https://api.test/a'' ''abc123xyz789'' 1]
                   (example_state 2)))) = []"
proof -
  let ?s = "run [bearer_request ''https://api.test/a'' ''abc123xyz789'' 1] (example_state 2)"
  let ?f = "\<lparr>form_tokenType = Session, form_tokenSource = Headers, form_maxTokens = 3,
             form_customHeaderName = [], form_autoCleanup = True\<rparr>"
  have r: "GET_TOKENS ?s = [(''abc123xyz789'', \<lparr>url = ''https://api.test/a'', timestamp = 1\<rparr>)]"
    by code_simp
  have h: "fst (submit ?f ?s) = Saved"
    by (simp add: submit_def Let_def)
  show ?thesis
    using policy_change_empties_collection [of DEFAULT_SETTINGS ?s ?f] r h by simp
qed

section \<open>Active tab tracking\<close>

text \<open>
  C7, as the listeners are written. \<open>updateActiveTab\<close> stores the queried tab and empties
  the collection exactly when a tab is answered whose id differs from the stored one, and
  changes nothing otherwise. The tab-activation listener stores the id and empties the
  collection on every activation, whether or not the id is the stored one. A tab update
  empties the collection, and keeps the stored id, exactly when it is a loading signal of
  the active tab, and changes nothing otherwise.
\<close>

theorem context_change_handlers:
  "(tab = Some i \<and> Some i \<noteq> activeTabId s \<longrightarrow>
      detectedTokens (handle (TabQueried tab) s) = []
      \<and> activeTabId (handle (TabQueried tab) s) = Some i)
   \<and> (tab = None \<or> tab = activeTabId s \<longrightarrow> handle (TabQueried tab) s = s)
   \<and> detectedTokens (handle (TabActivated i) s) = []
   \<and> activeTabId (handle (TabActivated i) s) = Some i
   \<and> (Some i = activeTabId s \<and> loading \<longrightarrow>
        detectedTokens (handle (TabUpdated i loading) s) = []
        \<and> activeTabId (handle (TabUpdated i loading) s) = activeTabId s)
   \<and> (Some i \<noteq> activeTabId s \<or> \<not> loading \<longrightarrow> handle (TabUpdated i loading) s = s)"
  by (auto simp: updateActiveTab_def onActivated_def onUpdated_def split: option.splits)

theorem context_change_handlers_witness:
  "detectedTokens
     (handle (TabQueried (Some 8))
        (run [bearer_request ''https://api.test/a'' ''abc123xyz789'' 1] (example_state 2))) = []
   \<and> handle (TabQueried (Some 7))
        (run [bearer_request ''https://api.test/a'' ''abc123xyz789'' 1] (example_state 2))
      = run [bearer_request ''https://api.test/a'' ''abc123xyz789'' 1] (example_state 2)
   \<and> detectedTokens
        (handle (TabUpdated 7 True)
           (run [bearer_request ''https://api.test/a'' ''abc123xyz789'' 1] (example_state 2))) = []
   \<and> handle (TabUpdated 7 False)
        (run [bearer_request ''https://api.test/a'' ''abc123xyz789'' 1] (example_state 2))
      = run [bearer_request ''https://api.test/a'' ''abc123xyz789'' 1] (example_state 2)"
proof -
  let ?s = "run [bearer_request ''https://api.test/a'' ''abc123xyz789'' 1] (example_state 2)"
  have a: "activeTabId ?s = Some 7" by code_simp
  show ?thesis
    using context_change_handlers [of "Some 8" 8 ?s False]
      context_change_handlers [of "Some 7" 7 ?s True]
      context_change_handlers [of "Some 7" 7 ?s False] a
    by simp
qed

text \<open>
  An activation that carries the stored tab id is not a no-op: with tab 7 active and one
  token held, the activation of tab 7 empties the collection.
\<close>

theorem activation_of_stored_tab_counterexample:
  "activeTabId (run [bearer_request ''https://api.test/a'' ''abc123xyz789'' 1] (example_state 2))
     = Some 7
   \<and> detectedTokens
        (run [bearer_request ''https://api.test/a'' ''abc123xyz789'' 1] (example_state 2))
      = [(''abc123xyz789'', \<lparr>url = ''https://api.test/a'', timestamp = 1\<rparr>)]
   \<and> detectedTokens
        (handle (TabActivated 7)
           (run [bearer_request ''https://api.test/a'' ''abc123xyz789'' 1] (example_state 2)))
      = []"
  by code_simp

section \<open>Stored tokens are not empty\<close>

lemma addToken_nonempty:
  "tokens_nonempty s \<Longrightarrow> t \<noteq> [] \<Longrightarrow> tokens_nonempty (snd (addToken t u k now s))"
  by (simp add: tokens_nonempty_def addToken_eq)

lemma add_all_nonempty:
  "tokens_nonempty s \<Longrightarrow> list_all (\<lambda>item. fst item \<noteq> []) items \<Longrightarrow>
   tokens_nonempty (add_all items k now s)"
  by (induction items k now s rule: add_all.induct) (simp_all add: addToken_nonempty)

lemma pattern_loop_long:
  "(v, l) \<in> set (pattern_loop nameLower item label pats) \<Longrightarrow> 10 < length v"
  by (induction pats) (auto split: if_splits option.splits)

lemma scan_store_long: "(v, l) \<in> set (scan_store kind store pats) \<Longrightarrow> 10 < length v"
  by (auto simp: scan_store_def dest: pattern_loop_long)

lemma extractTokensFromStorage_long:
  "(v, l) \<in> set (extractTokensFromStorage pg st) \<Longrightarrow> 10 < length v"
  by (auto simp: extractTokensFromStorage_def Let_def split: option.splits
           dest: scan_store_long)

lemma extractTokensFromCookies_long:
  "(v, l) \<in> set (extractTokensFromCookies cs st) \<Longrightarrow> 10 < length v"
  by (auto simp: extractTokensFromCookies_def Let_def split: option.splits
           dest: pattern_loop_long)

lemma long_items_nonempty:
  assumes "\<And>v l. (v, l) \<in> set items \<Longrightarrow> 10 < length v"
  shows "list_all (\<lambda>item. fst item \<noteq> []) items"
  unfolding list_all_iff
proof
  fix item assume "item \<in> set items"
  then have "10 < length (fst item)" using assms [of "fst item" "snd item"] by simp
  then show "fst item \<noteq> []" by auto
qed

lemma SCAN_STORAGE_nonempty:
  assumes "tokens_nonempty s"
  shows "tokens_nonempty (SCAN_STORAGE env now s)"
proof -
  define found where "found =
     (if tokenSource (getSettings s) = Storage
      then extractTokensFromStorage (env_page env) (getSettings s)
      else if tokenSource (getSettings s) = Cookies
      then (case env_tab_url env of
              None \<Rightarrow> []
            | Some u \<Rightarrow>
                if u \<noteq> [] then extractTokensFromCookies (env_cookies env) (getSettings s)
                else [])
      else [])"
  have "found = extractTokensFromStorage (env_page env) (getSettings s)
        \<or> found = extractTokensFromCookies (env_cookies env) (getSettings s) \<or> found = []"
    by (simp add: found_def split: option.splits)
  then have "\<And>v l. (v, l) \<in> set found \<Longrightarrow> 10 < length v"
    using extractTokensFromStorage_long extractTokensFromCookies_long by fastforce
  then have "list_all (\<lambda>item. fst item \<noteq> []) found"
    by (rule long_items_nonempty)
  then have "tokens_nonempty (add_all found (maxTokens (getSettings s)) now s)"
    using assms by (simp add: add_all_nonempty)
  then show ?thesis
    by (simp add: SCAN_STORAGE_def Let_def found_def)
qed

lemma handleWebRequest_nonempty:
  "tokens_nonempty s \<Longrightarrow> tokens_nonempty (handleWebRequest tabId u hs now s)"
  by (simp add: handleWebRequest_def Let_def addToken_nonempty split: option.splits)

lemma handle_nonempty: "tokens_nonempty s \<Longrightarrow> tokens_nonempty (handle e s)"
proof (cases e)
  case (WebRequest tabId u hs now)
  assume "tokens_nonempty s"
  with WebRequest show ?thesis by (simp add: handleWebRequest_nonempty)
next
  case (ScanStorage env now)
  assume "tokens_nonempty s"
  with ScanStorage show ?thesis by (simp add: SCAN_STORAGE_nonempty)
next
  case (TabQueried tab)
  assume "tokens_nonempty s"
  with TabQueried show ?thesis
    by (simp add: tokens_nonempty_def updateActiveTab_def split: option.splits)
next
  case (TabActivated tabId)
  then show ?thesis by (simp add: tokens_nonempty_def onActivated_def)
next
  case (TabUpdated tabId loading)
  assume "tokens_nonempty s"
  with TabUpdated show ?thesis by (simp add: tokens_nonempty_def onUpdated_def)
next
  case ClearData
  then show ?thesis by (simp add: tokens_nonempty_def CLEAR_DATA_def persistTokens_def)
next
  case (SaveSettings st)
  then show ?thesis by (simp add: tokens_nonempty_def SAVE_SETTINGS_def)
next
  case (WindowRemoved n)
  assume "tokens_nonempty s"
  with WindowRemoved show ?thesis by (simp add: tokens_nonempty_def onRemoved_def)
qed

lemma run_nonempty: "tokens_nonempty s \<Longrightarrow> tokens_nonempty (run es s)"
  by (induction es arbitrary: s) (simp_all add: handle_nonempty)

text \<open>
  C8. Every listener keeps the stored tokens non-empty, so they are non-empty after any
  sequence of events from a collection where they are; a request whose matched header
  value is the empty string changes nothing; and every candidate of a storage or cookie
  scan is longer than 10.
\<close>

theorem stored_tokens_nonempty:
  "(tokens_nonempty s \<longrightarrow> tokens_nonempty (run es s))
   \<and> (extractTokenFromHeaders hs (getSettings s) = Some [] \<longrightarrow>
        handleWebRequest tabId u hs now s = s)
   \<and> (\<forall>item \<in> set (extractTokensFromStorage pg st) \<union> set (extractTokensFromCookies cs st).
        10 < length (fst item))"
proof -
  have "\<forall>item \<in> set (extractTokensFromStorage pg st) \<union> set (extractTokensFromCookies cs st).
        10 < length (fst item)"
    using extractTokensFromStorage_long [of _ _ pg st] extractTokensFromCookies_long [of _ _ cs st]
    by (metis Un_iff prod.collapse)
  then show ?thesis
    by (simp add: run_nonempty handleWebRequest_def Let_def)
qed

theorem stored_tokens_nonempty_witness:
  "tokens_nonempty
     (run [WebRequest 7 ''https://api.test/a''
             (Some [\<lparr>header_name = ''X-Session-Token'', header_value = []\<rparr>]) 1,
           WebRequest 7 ''https://api.test/b''
             (Some [\<lparr>header_name = ''X-Session-Token'', header_value = ''s3ss10n''\<rparr>]) 2]
        ((example_state 5)\<lparr>local_settings := Some (DEFAULT_SETTINGS\<lparr>tokenType := Session\<rparr>)\<rparr>))
   \<and> handleWebRequest 7 ''https://api.test/a''
        (Some [\<lparr>header_name = ''X-Session-Token'', header_value = []\<rparr>]) 1
        ((example_state 5)\<lparr>local_settings := Some (DEFAULT_SETTINGS\<lparr>tokenType := Session\<rparr>)\<rparr>)
      = (example_state 5)\<lparr>local_settings := Some (DEFAULT_SETTINGS\<lparr>tokenType := Session\<rparr>)\<rparr>
   \<and> 10 < length (fst (''0123456789abcdefghijklmnopqrst'', ''localStorage:auth_token_v2b''))"
proof -
  let ?s = "(example_state 5)\<lparr>local_settings := Some (DEFAULT_SETTINGS\<lparr>tokenType := Session\<rparr>)\<rparr>"
  let ?hs = "Some [\<lparr>header_name = ''X-Session-Token'', header_value = []\<rparr>]"
  let ?pg = "Some \<lparr>localStorage = [(''auth_token_v2b'', ''0123456789abcdefghijklmnopqrst'')],
                   sessionStorage = []\<rparr>"
  have h1: "tokens_nonempty ?s" by code_simp
  have h2: "extractTokenFromHeaders ?hs (getSettings ?s) = Some []" by code_simp
  have h3: "(''0123456789abcdefghijklmnopqrst'', ''localStorage:auth_token_v2b'')
              \<in> set (extractTokensFromStorage ?pg DEFAULT_SETTINGS)
                \<union> set (extractTokensFromCookies None DEFAULT_SETTINGS)"
    by code_simp
  show ?thesis
    using stored_tokens_nonempty [of ?s _ ?hs 7 "''https://api.test/a''" 1 ?pg DEFAULT_SETTINGS None]
      h1 h2 h3
    by blast
qed

section \<open>Custom type without a header name\<close>

lemma header_loop_custom_empty:
  "tokenType st = Custom \<Longrightarrow> customHeaderName st = [] \<Longrightarrow> header_loop st hs = None"
  by (induction hs) (simp_all add: Let_def)

lemma pattern_loop_no_patterns: "pattern_loop nameLower item label [] = []"
  by simp

lemma scan_store_no_patterns: "scan_store kind store [] = []"
  by (simp add: scan_store_def)

text \<open>
  C10. With the Custom token type and an empty header name, the header matcher answers
  nothing for every header list, the storage scan and the cookie scan find nothing in
  every page and cookie list, and a web request or a scan leaves the state as it was.
\<close>

theorem custom_without_name_matches_nothing:
  assumes "tokenType st = Custom" and "customHeaderName st = []"
  shows "extractTokenFromHeaders hs st = None
       \<and> extractTokensFromStorage pg st = []
       \<and> extractTokensFromCookies cs st = []
       \<and> (getSettings s = st \<longrightarrow>
            handleWebRequest tabId u hs now s = s \<and> SCAN_STORAGE env now s = s)"
proof -
  have a: "extractTokenFromHeaders hs st = None"
    using assms by (simp add: extractTokenFromHeaders_def header_loop_custom_empty
                         split: option.splits)
  have b: "extractTokensFromStorage pg st = []" for pg
    using assms
    by (simp add: extractTokensFromStorage_def storage_patterns_def scan_store_no_patterns
             split: option.splits)
  have c: "extractTokensFromCookies cs st = []" for cs
    using assms
    by (simp add: extractTokensFromCookies_def cookie_patterns_def split: option.splits)
  have d: "getSettings s = st \<Longrightarrow> handleWebRequest tabId u hs now s = s"
    using a by (simp add: handleWebRequest_def Let_def)
  have e: "getSettings s = st \<Longrightarrow> SCAN_STORAGE env now s = s"
    using b c by (simp add: SCAN_STORAGE_def Let_def split: option.splits)
  show ?thesis using a b c d e by simp
qed

theorem custom_without_name_matches_nothing_witness:
  "extractTokenFromHeaders
     (Some [\<lparr>header_name = [], header_value = ''0123456789abcdef''\<rparr>,
            \<lparr>header_name = ''X-Api-Key'', header_value = ''0123456789abcdef''\<rparr>])
     (DEFAULT_SETTINGS\<lparr>tokenType := Custom\<rparr>) = None
   \<and> SCAN_STORAGE
        \<lparr>env_page = Some \<lparr>localStorage = [(''auth_token'', ''0123456789abcdef'')],
                           sessionStorage = [([], ''0123456789abcdef'')]\<rparr>,
         env_tab_url = Some ''https://api.test/'',
         env_cookies = Some [\<lparr>cookie_name = ''sid'', cookie_value = ''0123456789abcdef''\<rparr>]\<rparr>
        1
        ((example_state 5)\<lparr>local_settings :=
            Some (DEFAULT_SETTINGS\<lparr>tokenType := Custom, tokenSource := Storage\<rparr>)\<rparr>)
      = (example_state 5)\<lparr>local_settings :=
            Some (DEFAULT_SETTINGS\<lparr>tokenType := Custom, tokenSource := Storage\<rparr>)\<rparr>"
proof -
  let ?st = "DEFAULT_SETTINGS\<lparr>tokenType := Custom, tokenSource := Storage\<rparr>"
  let ?s = "(example_state 5)\<lparr>local_settings := Some ?st\<rparr>"
  have h1: "tokenType (DEFAULT_SETTINGS\<lparr>tokenType := Custom\<rparr>) = Custom" by simp
  have h2: "customHeaderName (DEFAULT_SETTINGS\<lparr>tokenType := Custom\<rparr>) = []"
    by (simp add: DEFAULT_SETTINGS_def)
  have h3: "tokenType ?st = Custom" by simp
  have h4: "customHeaderName ?st = []" by (simp add: DEFAULT_SETTINGS_def)
  have h5: "getSettings ?s = ?st" by (simp add: getSettings_def)
  show ?thesis
    using custom_without_name_matches_nothing [OF h1 h2]
      custom_without_name_matches_nothing [OF h3 h4, of _ _ _ ?s] h5
    by blast
qed

section \<open>Storage scan\<close>

lemma str_includes_iff: "str_includes s p \<longleftrightarrow> (\<exists>a b. s = a @ p @ b)"
proof (induction s)
  case Nil
  then show ?case by auto
next
  case (Cons c cs)
  show ?case
  proof
    assume "str_includes (c # cs) p"
    then consider "prefix p (c # cs)" | "str_includes cs p" by auto
    then show "\<exists>a b. c # cs = a @ p @ b"
    proof cases
      case 1
      then obtain b where "c # cs = p @ b" by (auto simp: prefix_def)
      then have "c # cs = [] @ p @ b" by simp
      then show ?thesis by blast
    next
      case 2
      then obtain a b where "cs = a @ p @ b" using Cons.IH by auto
      then have "c # cs = (c # a) @ p @ b" by simp
      then show ?thesis by blast
    qed
  next
    assume "\<exists>a b. c # cs = a @ p @ b"
    then obtain a b where ab: "c # cs = a @ p @ b" by auto
    show "str_includes (c # cs) p"
    proof (cases a)
      case Nil
      then have "prefix p (c # cs)" using ab by (simp add: prefix_def)
      then show ?thesis by simp
    next
      case (Cons x a')
      then have "cs = a' @ p @ b" using ab by simp
      then have "str_includes cs p" using Cons.IH by auto
      then show ?thesis by simp
    qed
  qed
qed

lemma pattern_loop_eq:
  "pattern_loop nameLower item label pats =
     (if (\<exists>pat \<in> set pats. str_includes nameLower (toLowerCase pat))
      then (case item of
              None \<Rightarrow> []
            | Some v \<Rightarrow> if 10 < length v then [(v, label)] else [])
      else [])"
  by (induction pats) (auto split: option.splits)

lemma pattern_loop_iff:
  "(v, l) \<in> set (pattern_loop nameLower item label pats) \<longleftrightarrow>
     (item = Some v \<and> l = label \<and> 10 < length v
      \<and> (\<exists>pat \<in> set pats. str_includes nameLower (toLowerCase pat)))"
  by (induction pats) (auto split: option.splits if_splits)

lemma scan_store_iff:
  "(v, l) \<in> set (scan_store kind store pats) \<longleftrightarrow>
     (\<exists>key \<in> set (map fst store).
        map_of store key = Some v \<and> l = kind @ '':'' @ key \<and> 10 < length v
        \<and> (\<exists>pat \<in> set pats. str_includes (toLowerCase key) (toLowerCase pat)))"
proof -
  have "(v, l) \<in> set (scan_store kind store pats) \<longleftrightarrow>
     (\<exists>key \<in> set (map fst store).
        (v, l) \<in> set (pattern_loop (toLowerCase key) (map_of store key)
                        (kind @ '':'' @ key) pats))"
    unfolding scan_store_def set_concat set_map by blast
  then show ?thesis
    unfolding pattern_loop_iff by simp
qed

text \<open>
  C9. A storage scan yields the candidate \<open>(v, l)\<close> exactly when one of the two stores
  has a key whose value is \<open>v\<close>, whose lower-cased name contains a lower-cased keyword of
  the token type, with \<open>v\<close> longer than 10 and \<open>l\<close> the store's name, a colon and the key.
  So a store with one matching key yields that one candidate when the value is longer than
  10 and nothing otherwise; and a scan event under the storage source feeds exactly these
  candidates to \<open>addToken\<close>.
\<close>

theorem storage_scan_candidates:
  "((v, l) \<in> set (extractTokensFromStorage (Some p) st) \<longleftrightarrow>
      (\<exists>(kind, store) \<in> {(''localStorage'', localStorage p),
                           (''sessionStorage'', sessionStorage p)}.
         \<exists>key \<in> set (map fst store).
           map_of store key = Some v \<and> l = kind @ '':'' @ key \<and> 10 < length v
           \<and> (\<exists>pat \<in> set (storage_patterns (tokenType st) (customHeaderName st)).
                 str_includes (toLowerCase key) (toLowerCase pat))))
   \<and> ((\<exists>pat \<in> set (storage_patterns (tokenType st) (customHeaderName st)).
          str_includes (toLowerCase key) (toLowerCase pat)) \<longrightarrow>
        extractTokensFromStorage (Some \<lparr>localStorage = [(key, x)], sessionStorage = []\<rparr>) st
          = (if 10 < length x then [(x, ''localStorage:'' @ key)] else []))
   \<and> (tokenSource (getSettings s) = Storage \<longrightarrow>
        SCAN_STORAGE env now s
          = add_all (extractTokensFromStorage (env_page env) (getSettings s))
              (maxTokens (getSettings s)) now s)"
proof -
  have a: "(v, l) \<in> set (extractTokensFromStorage (Some p) st) \<longleftrightarrow>
      (\<exists>(kind, store) \<in> {(''localStorage'', localStorage p),
                           (''sessionStorage'', sessionStorage p)}.
         \<exists>key \<in> set (map fst store).
           map_of store key = Some v \<and> l = kind @ '':'' @ key \<and> 10 < length v
           \<and> (\<exists>pat \<in> set (storage_patterns (tokenType st) (customHeaderName st)).
                 str_includes (toLowerCase key) (toLowerCase pat)))"
    by (simp add: extractTokensFromStorage_def Let_def scan_store_iff)
  have b: "(\<exists>pat \<in> set (storage_patterns (tokenType st) (customHeaderName st)).
          str_includes (toLowerCase key) (toLowerCase pat)) \<Longrightarrow>
        extractTokensFromStorage (Some \<lparr>localStorage = [(key, x)], sessionStorage = []\<rparr>) st
          = (if 10 < length x then [(x, ''localStorage:'' @ key)] else [])"
    by (simp add: extractTokensFromStorage_def Let_def scan_store_def pattern_loop_eq)
  have c: "tokenSource (getSettings s) = Storage \<Longrightarrow>
        SCAN_STORAGE env now s
          = add_all (extractTokensFromStorage (env_page env) (getSettings s))
              (maxTokens (getSettings s)) now s"
    by (simp add: SCAN_STORAGE_def Let_def)
  show ?thesis using a b c by blast
qed

theorem storage_scan_candidates_witness:
  "extractTokensFromStorage
     (Some \<lparr>localStorage = [(''auth_token_v2'', ''01234567'')], sessionStorage = []\<rparr>)
     DEFAULT_SETTINGS = []
   \<and> extractTokensFromStorage
       (Some \<lparr>localStorage = [(''auth_token_v2b'', ''0123456789abcdefghijklmnopqrst'')],
              sessionStorage = []\<rparr>)
       DEFAULT_SETTINGS
     = [(''0123456789abcdefghijklmnopqrst'', ''localStorage:auth_token_v2b'')]"
proof -
  have h1: "\<exists>pat \<in> set (storage_patterns (tokenType DEFAULT_SETTINGS)
                           (customHeaderName DEFAULT_SETTINGS)).
              str_includes (toLowerCase ''auth_token_v2'') (toLowerCase pat)"
    by code_simp
  have h2: "\<exists>pat \<in> set (storage_patterns (tokenType DEFAULT_SETTINGS)
                           (customHeaderName DEFAULT_SETTINGS)).
              str_includes (toLowerCase ''auth_token_v2b'') (toLowerCase pat)"
    by code_simp
  have l1: "\<not> 10 < length ''01234567''" by simp
  have l2: "10 < length ''0123456789abcdefghijklmnopqrst''" by simp
  show ?thesis
    using storage_scan_candidates [of _ _ _ DEFAULT_SETTINGS "''auth_token_v2''" "''01234567''"] h1 l1
      storage_scan_candidates [of _ _ _ DEFAULT_SETTINGS "''auth_token_v2b''"
        "''0123456789abcdefghijklmnopqrst''"] h2 l2
    by (simp del: length_Cons)
qed

section \<open>Bearer header\<close>

lemma match_ws_plus_hit:
  "match_dot_plus_end (drop n s) = Some t \<Longrightarrow> 0 < n \<Longrightarrow> match_ws_plus n s = Some t"
  by (cases n) simp_all

lemma match_ws_plus_sound:
  "match_ws_plus n s = Some t \<Longrightarrow>
     \<exists>j. 0 < j \<and> j \<le> n \<and> t = drop j s \<and> t \<noteq> []
       \<and> list_all (\<lambda>c. \<not> is_line_terminator c) t"
proof (induction n)
  case 0
  then show ?case by simp
next
  case (Suc n)
  show ?case
  proof (cases "match_dot_plus_end (drop (Suc n) s)")
    case None
    then have "match_ws_plus n s = Some t" using Suc.prems by simp
    then obtain j where "0 < j" "j \<le> n" "t = drop j s" "t \<noteq> []"
      "list_all (\<lambda>c. \<not> is_line_terminator c) t"
      using Suc.IH by blast
    then show ?thesis by (intro exI [of _ j]) simp
  next
    case (Some t')
    then have "t' = t" using Suc.prems by simp
    then have "t = drop (Suc n) s \<and> t \<noteq> [] \<and> list_all (\<lambda>c. \<not> is_line_terminator c) t"
      using Some by (auto simp: match_dot_plus_end_def split: if_splits)
    then have "0 < Suc n \<and> Suc n \<le> Suc n \<and> t = drop (Suc n) s \<and> t \<noteq> []
       \<and> list_all (\<lambda>c. \<not> is_line_terminator c) t"
      by blast
    then show ?thesis by (rule exI)
  qed
qed

lemma takeWhile_ws_append:
  assumes "list_all is_whitespace w" "t \<noteq> []" "\<not> is_whitespace (hd t)"
  shows "takeWhile is_whitespace (w @ t) = w"
proof -
  have "takeWhile is_whitespace t = []" using assms(2,3) by (cases t) simp_all
  then show ?thesis using assms(1) by (simp add: list_all_iff)
qed

lemma bearer_match_value:
  assumes "map ascii_upper p = ''BEARER''" "w \<noteq> []" "list_all is_whitespace w"
    "t \<noteq> []" "\<not> is_whitespace (hd t)" "list_all (\<lambda>c. \<not> is_line_terminator c) t"
  shows "bearer_match (p @ w @ t) = Some t"
proof -
  have "length (map ascii_upper p) = length ''BEARER''"
    using assms(1) by (rule arg_cong)
  then have lp: "length p = 6" by simp
  have tw: "takeWhile is_whitespace (w @ t) = w"
    using assms(3,4,5) by (rule takeWhile_ws_append)
  have "match_dot_plus_end (drop (length w) (w @ t)) = Some t"
    using assms(4,6) by (simp add: match_dot_plus_end_def)
  then have "match_ws_plus (length w) (w @ t) = Some t"
    using assms(2) by (simp add: match_ws_plus_hit)
  then show ?thesis
    using lp assms(1) tw by (simp add: bearer_match_def)
qed

lemma bearer_match_sound:
  assumes "bearer_match v = Some t"
  shows "\<exists>p w. v = p @ w @ t \<and> map ascii_upper p = ''BEARER'' \<and> w \<noteq> []
           \<and> list_all is_whitespace w \<and> t \<noteq> []
           \<and> list_all (\<lambda>c. \<not> is_line_terminator c) t"
proof -
  define rest where "rest = drop 6 v"
  define n where "n = length (takeWhile is_whitespace rest)"
  have pre: "map ascii_upper (take 6 v) = ''BEARER''"
    using assms by (simp add: bearer_match_def split: if_splits)
  have m: "match_ws_plus n rest = Some t"
    using assms by (simp add: bearer_match_def rest_def n_def split: if_splits)
  obtain j where j: "0 < j" "j \<le> n" "t = drop j rest" "t \<noteq> []"
    "list_all (\<lambda>c. \<not> is_line_terminator c) t"
    using match_ws_plus_sound [OF m] by blast
  have "take j (takeWhile is_whitespace rest @ dropWhile is_whitespace rest)
          = take j (takeWhile is_whitespace rest)"
    using j(2) by (simp del: takeWhile_dropWhile_id add: n_def)
  then have tk: "take j rest = take j (takeWhile is_whitespace rest)"
    by simp
  have "\<And>c. c \<in> set (take j (takeWhile is_whitespace rest)) \<Longrightarrow> is_whitespace c"
    by (meson in_set_takeD set_takeWhileD)
  then have ws: "list_all is_whitespace (take j rest)"
    unfolding tk list_all_iff by blast
  have "n \<le> length rest"
    unfolding n_def by (rule length_takeWhile_le)
  then have "0 < length (take j rest)" using j(1,2) by simp
  then have ne: "take j rest \<noteq> []" by blast
  have v1: "take 6 v @ rest = v"
    unfolding rest_def by (rule append_take_drop_id)
  have v2: "take j rest @ t = rest"
    unfolding j(3) by (rule append_take_drop_id)
  have v: "v = take 6 v @ take j rest @ t"
    by (simp only: v2 v1)
  have "v = take 6 v @ take j rest @ t \<and> map ascii_upper (take 6 v) = ''BEARER''
          \<and> take j rest \<noteq> [] \<and> list_all is_whitespace (take j rest) \<and> t \<noteq> []
          \<and> list_all (\<lambda>c. \<not> is_line_terminator c) t"
    using v pre ne ws j(4,5) by (intro conjI)
  then show ?thesis by (intro exI)
qed

lemma header_loop_bearer_skip:
  assumes "tokenType st = Bearer"
    and "list_all (\<lambda>h. \<not> (toLowerCase (header_name h) = ''authorization''
                            \<and> bearer_match (header_value h) \<noteq> None)) pre"
  shows "header_loop st (pre @ rest) = header_loop st rest"
  using assms(2)
proof (induction pre)
  case Nil
  then show ?case by simp
next
  case (Cons h pre)
  then show ?case using assms(1) by (auto simp: Let_def split: option.splits)
qed

lemma header_loop_bearer_hit:
  "tokenType st = Bearer \<Longrightarrow> toLowerCase (header_name h) = ''authorization'' \<Longrightarrow>
   bearer_match (header_value h) = Some t \<Longrightarrow> header_loop st (h # post) = Some t"
  by (simp add: Let_def)

lemma header_loop_bearer_sound:
  "tokenType st = Bearer \<Longrightarrow> header_loop st hs = Some t \<Longrightarrow>
   \<exists>h \<in> set hs. toLowerCase (header_name h) = ''authorization''
                \<and> bearer_match (header_value h) = Some t"
proof (induction hs)
  case Nil
  then show ?case by simp
next
  case (Cons h hs)
  then show ?case by (auto simp: Let_def split: if_splits option.splits)
qed

text \<open>
  C5, as the pattern is written. Under the Bearer type the first header whose lower-cased
  name is \<open>authorization\<close> and whose value matches wins. When the value is a
  case-insensitive \<open>Bearer\<close>, then white space, then a remainder \<open>t\<close> that is not empty,
  does not begin with white space and holds no line terminator, the token is \<open>t\<close> as it
  stands, white space at its end included; and the request of the active tab hands \<open>t\<close>
  and the request URL to \<open>addToken\<close>. Every token the matcher returns is such a remainder
  of an \<open>authorization\<close> header, after the prefix and at least one white-space character.
\<close>

theorem bearer_header_extraction:
  assumes "tokenType st = Bearer"
    and "list_all (\<lambda>h'. \<not> (toLowerCase (header_name h') = ''authorization''
                             \<and> bearer_match (header_value h') \<noteq> None)) pre"
    and "toLowerCase (header_name h) = ''authorization''"
    and "header_value h = p @ w @ t"
    and "map ascii_upper p = ''BEARER''" and "w \<noteq> []" and "list_all is_whitespace w"
    and "t \<noteq> []" and "\<not> is_whitespace (hd t)"
    and "list_all (\<lambda>c. \<not> is_line_terminator c) t"
  shows "extractTokenFromHeaders (Some (pre @ h # post)) st = Some t
       \<and> (activeTabId s = Some tabId \<and> getSettings s = st \<and> tokenSource st = Headers \<longrightarrow>
            handleWebRequest tabId u (Some (pre @ h # post)) now s
              = snd (addToken t u (maxTokens st) now s))
       \<and> (extractTokenFromHeaders (Some hs) st = Some t' \<longrightarrow>
            (\<exists>h' \<in> set hs. toLowerCase (header_name h') = ''authorization''
               \<and> (\<exists>p' w'. header_value h' = p' @ w' @ t'
                     \<and> map ascii_upper p' = ''BEARER'' \<and> w' \<noteq> []
                     \<and> list_all is_whitespace w' \<and> t' \<noteq> []
                     \<and> list_all (\<lambda>c. \<not> is_line_terminator c) t')))"
proof -
  have bm: "bearer_match (header_value h) = Some t"
    unfolding assms(4) using assms(5-10) by (rule bearer_match_value)
  have "header_loop st (pre @ h # post) = header_loop st (h # post)"
    using assms(1,2) by (rule header_loop_bearer_skip)
  also have "\<dots> = Some t"
    using assms(1,3) bm by (rule header_loop_bearer_hit)
  finally have a: "extractTokenFromHeaders (Some (pre @ h # post)) st = Some t"
    by (simp add: extractTokenFromHeaders_def)
  have b: "activeTabId s = Some tabId \<and> getSettings s = st \<and> tokenSource st = Headers \<longrightarrow>
            handleWebRequest tabId u (Some (pre @ h # post)) now s
              = snd (addToken t u (maxTokens st) now s)"
    using a assms(8) by (simp add: handleWebRequest_def Let_def)
  have c: "extractTokenFromHeaders (Some hs) st = Some t' \<longrightarrow>
            (\<exists>h' \<in> set hs. toLowerCase (header_name h') = ''authorization''
               \<and> (\<exists>p' w'. header_value h' = p' @ w' @ t'
                     \<and> map ascii_upper p' = ''BEARER'' \<and> w' \<noteq> []
                     \<and> list_all is_whitespace w' \<and> t' \<noteq> []
                     \<and> list_all (\<lambda>c. \<not> is_line_terminator c) t'))"
  proof
    assume "extractTokenFromHeaders (Some hs) st = Some t'"
    then have "header_loop st hs = Some t'" by (simp add: extractTokenFromHeaders_def)
    then have hl: "header_loop st hs = Some t'" .
    obtain h' where h': "h' \<in> set hs" "toLowerCase (header_name h') = ''authorization''"
      "bearer_match (header_value h') = Some t'"
      using header_loop_bearer_sound [OF assms(1) hl] by auto
    have hp: "toLowerCase (header_name h') = ''authorization''
               \<and> (\<exists>p' w'. header_value h' = p' @ w' @ t'
                     \<and> map ascii_upper p' = ''BEARER'' \<and> w' \<noteq> []
                     \<and> list_all is_whitespace w' \<and> t' \<noteq> []
                     \<and> list_all (\<lambda>c. \<not> is_line_terminator c) t')"
      using h'(2) bearer_match_sound [OF h'(3)] by (rule conjI)
    show "\<exists>h' \<in> set hs. toLowerCase (header_name h') = ''authorization''
               \<and> (\<exists>p' w'. header_value h' = p' @ w' @ t'
                     \<and> map ascii_upper p' = ''BEARER'' \<and> w' \<noteq> []
                     \<and> list_all is_whitespace w' \<and> t' \<noteq> []
                     \<and> list_all (\<lambda>c. \<not> is_line_terminator c) t')"
      by (rule bexI [of _ h']) (rule hp, rule h'(1))
  qed
  show ?thesis by (rule conjI [OF a conjI [OF b c]])
qed

theorem bearer_header_extraction_witness:
  "extractTokenFromHeaders
     (Some [\<lparr>header_name = ''Accept'', header_value = ''*/*''\<rparr>,
            \<lparr>header_name = ''AUTHORIZATION'', header_value = ''bEARER   abc123xyz789''\<rparr>,
            \<lparr>header_name = ''Authorization'', header_value = ''Bearer other''\<rparr>])
     DEFAULT_SETTINGS = Some ''abc123xyz789''
   \<and> handleWebRequest 7 ''https://api.test/a''
        (Some [\<lparr>header_name = ''Accept'', header_value = ''*/*''\<rparr>,
               \<lparr>header_name = ''AUTHORIZATION'', header_value = ''bEARER   abc123xyz789''\<rparr>,
               \<lparr>header_name = ''Authorization'', header_value = ''Bearer other''\<rparr>])
        1 (example_state 5)
      = snd (addToken ''abc123xyz789'' ''https://api.test/a'' 5 1 (example_state 5))"
proof -
  let ?h = "\<lparr>header_name = ''AUTHORIZATION'', header_value = ''bEARER   abc123xyz789''\<rparr>"
  let ?pre = "[\<lparr>header_name = ''Accept'', header_value = ''*/*''\<rparr>]"
  let ?post = "[\<lparr>header_name = ''Authorization'', header_value = ''Bearer other''\<rparr>]"
  have h1: "tokenType DEFAULT_SETTINGS = Bearer" by code_simp
  have h2: "list_all (\<lambda>h'. \<not> (toLowerCase (header_name h') = ''authorization''
                             \<and> bearer_match (header_value h') \<noteq> None)) ?pre"
    by code_simp
  have h3: "toLowerCase (header_name ?h) = ''authorization''" by code_simp
  have h4: "header_value ?h = ''bEARER'' @ ''   '' @ ''abc123xyz789''" by simp
  have h5: "map ascii_upper ''bEARER'' = ''BEARER''" by code_simp
  have h6: "''   '' \<noteq> []" by simp
  have h7: "list_all is_whitespace ''   ''" by code_simp
  have h8: "''abc123xyz789'' \<noteq> []" by simp
  have h9: "\<not> is_whitespace (hd ''abc123xyz789'')" by code_simp
  have h10: "list_all (\<lambda>c. \<not> is_line_terminator c) ''abc123xyz789''" by code_simp
  have g1: "activeTabId (example_state 5) = Some 7" by code_simp
  have g2: "getSettings (example_state 5) = DEFAULT_SETTINGS" by code_simp
  have g3: "tokenSource DEFAULT_SETTINGS = Headers" by code_simp
  have g4: "maxTokens DEFAULT_SETTINGS = 5" by code_simp
  note th = bearer_header_extraction [OF h1 h2 h3 h4 h5 h6 h7 h8 h9 h10,
      where post = ?post and s = "example_state 5" and tabId = 7
        and u = "''https://api.test/a''" and now = 1 and hs = "[]" and t' = "[]"]
  have a: "extractTokenFromHeaders (Some (?pre @ ?h # ?post)) DEFAULT_SETTINGS
             = Some ''abc123xyz789''"
    using th by (rule conjunct1)
  have "activeTabId (example_state 5) = Some 7 \<and> getSettings (example_state 5) = DEFAULT_SETTINGS
          \<and> tokenSource DEFAULT_SETTINGS = Headers \<longrightarrow>
        handleWebRequest 7 ''https://api.test/a'' (Some (?pre @ ?h # ?post)) 1 (example_state 5)
          = snd (addToken ''abc123xyz789'' ''https://api.test/a'' (maxTokens DEFAULT_SETTINGS) 1
                   (example_state 5))"
    using th by (rule conjunct1 [OF conjunct2])
  then have b: "handleWebRequest 7 ''https://api.test/a'' (Some (?pre @ ?h # ?post)) 1
                  (example_state 5)
          = snd (addToken ''abc123xyz789'' ''https://api.test/a'' 5 1 (example_state 5))"
    using g1 g2 g3 g4 by simp
  show ?thesis using a b by simp
qed

text \<open>
  The token is not trimmed: for the value \<^verbatim>\<open>Bearer abc \<close> the matcher returns \<^verbatim>\<open>abc \<close>, with
  the space at its end, where trimming the remainder gives \<^verbatim>\<open>abc\<close>.
\<close>

theorem bearer_trailing_space_counterexample:
  "extractTokenFromHeaders
     (Some [\<lparr>header_name = ''Authorization'', header_value = ''Bearer abc ''\<rparr>])
     DEFAULT_SETTINGS = Some ''abc ''
   \<and> trim (drop 6 ''Bearer abc '') = ''abc''"
  by code_simp

section \<open>Token masking\<close>

lemma slice_front: "4 \<le> length token \<Longrightarrow> slice token 0 (Some 4) = take 4 token"
  by (simp add: slice_def Let_def min_def)

lemma slice_back:
  "4 \<le> length token \<Longrightarrow> slice token (- 4) None = drop (length token - 4) token"
proof -
  assume l: "4 \<le> length token"
  then have "nat (int (length token) - 4) = length token - 4" by simp
  moreover have "max (int (length token) - 4) 0 = int (length token) - 4" using l by simp
  ultimately show ?thesis by (simp add: slice_def Let_def)
qed

lemma repeat_count:
  "12 \<le> length token \<Longrightarrow>
   repeat mask_unit (min 20 (int (length token) - 8))
     = Some (concat (replicate (min 20 (length token - 8)) mask_unit))"
proof -
  assume l: "12 \<le> length token"
  then have "nat (min 20 (int (length token) - 8)) = min 20 (length token - 8)" by simp
  moreover have "\<not> min 20 (int (length token) - 8) < 0" using l by simp
  ultimately show ?thesis by (simp add: repeat_def)
qed

text \<open>
  C3, as the mask is computed. A token of 12 code units or more is shown as its first 4
  code units, then \<open>min 20 (length - 8)\<close> mask units, then its last 4 code units: the width
  of the mask follows the length of the token up to 20 units. A shorter token is shown as
  12 mask units, whatever the token is.
\<close>

theorem maskToken_shape:
  "(12 \<le> length token \<longrightarrow>
      maskToken token
        = Some (take 4 token @ concat (replicate (min 20 (length token - 8)) mask_unit)
                @ drop (length token - 4) token))
   \<and> (length token < 12 \<longrightarrow> maskToken token = Some (concat (replicate 12 mask_unit)))"
proof (intro conjI impI)
  assume l: "12 \<le> length token"
  then have ne: "token \<noteq> []" by auto
  have f: "slice token 0 (Some 4) = take 4 token" using l by (simp add: slice_front)
  have b: "slice token (- 4) None = drop (length token - 4) token"
    using l by (simp add: slice_back)
  show "maskToken token
        = Some (take 4 token @ concat (replicate (min 20 (length token - 8)) mask_unit)
                @ drop (length token - 4) token)"
    using l ne by (simp add: maskToken_def Let_def repeat_count f b)
next
  assume "length token < 12"
  then show "maskToken token = Some (concat (replicate 12 mask_unit))"
    by (simp add: maskToken_def)
qed

theorem maskToken_shape_witness:
  "maskToken (code_units_of ''abc123xyz789'')
     = Some (code_units_of ''abc1'' @ concat (replicate 4 mask_unit) @ code_units_of ''z789'')
   \<and> maskToken (code_units_of ''secret'') = Some (concat (replicate 12 mask_unit))"
proof -
  have l1: "12 \<le> length (code_units_of ''abc123xyz789'')"
    by (simp add: code_units_of_def)
  have l2: "length (code_units_of ''secret'') < 12"
    by (simp add: code_units_of_def)
  have e1: "take 4 (code_units_of ''abc123xyz789'') = code_units_of ''abc1''"
    by (simp add: code_units_of_def)
  have e2: "drop (length (code_units_of ''abc123xyz789'') - 4) (code_units_of ''abc123xyz789'')
              = code_units_of ''z789''"
    by (simp add: code_units_of_def)
  have e3: "min 20 (length (code_units_of ''abc123xyz789'') - 8) = 4"
    by (simp add: code_units_of_def)
  have "maskToken (code_units_of ''abc123xyz789'')
        = Some (take 4 (code_units_of ''abc123xyz789'')
                @ concat (replicate (min 20 (length (code_units_of ''abc123xyz789'') - 8))
                            mask_unit)
                @ drop (length (code_units_of ''abc123xyz789'') - 4)
                    (code_units_of ''abc123xyz789''))"
    using maskToken_shape [of "code_units_of ''abc123xyz789''"] l1 by (rule conjunct1 [THEN mp])
  then have a: "maskToken (code_units_of ''abc123xyz789'')
     = Some (code_units_of ''abc1'' @ concat (replicate 4 mask_unit) @ code_units_of ''z789'')"
    by (simp only: e1 e2 e3)
  have b: "maskToken (code_units_of ''secret'') = Some (concat (replicate 12 mask_unit))"
    using maskToken_shape [of "code_units_of ''secret''"] l2 by (rule conjunct2 [THEN mp])
  show ?thesis using a b by (rule conjI)
qed

text \<open>
  The mask is not of one width: a token of 12 code units gets 4 mask units, a token of 16
  gets 8.
\<close>

theorem mask_width_counterexample:
  "maskToken (code_units_of ''abcdefghijkl'')
     = Some (code_units_of ''abcd'' @ concat (replicate 4 mask_unit) @ code_units_of ''ijkl'')
   \<and> maskToken (code_units_of ''abcdefghijklmnop'')
     = Some (code_units_of ''abcd'' @ concat (replicate 8 mask_unit) @ code_units_of ''mnop'')"
  by (simp add: maskToken_def code_units_of_def slice_def repeat_def Let_def)

section \<open>Settings form\<close>

lemma form_settings_maxTokens:
  "maxTokens (form_settings f) = max 1 (min 5 (form_maxTokens f))"
  by (simp add: form_settings_def Let_def)

lemma form_settings_name:
  "customHeaderName (form_settings f)
     = (if form_tokenType f = Custom then trim (form_customHeaderName f) else [])"
  by (simp add: form_settings_def Let_def)

lemma form_settings_type: "tokenType (form_settings f) = form_tokenType f"
  by (simp add: form_settings_def Let_def)

lemma SAVE_SETTINGS_getSettings: "getSettings (SAVE_SETTINGS st s) = st"
  by (simp add: SAVE_SETTINGS_def saveSettings_def getSettings_def)

text \<open>
  C4, as the form and the handler are written. A submission with the Custom type and a
  header name that is empty after trimming is rejected with a message and the state,
  settings included, stays as it was. Every other submission is saved, whatever the
  slider value: the saved capacity is the slider value clamped into 1 to 5, and a saved
  Custom policy has a non-empty header name. The \<open>SAVE_SETTINGS\<close> handler stores the
  settings it is sent as they are.
\<close>

theorem settings_submit_validation:
  "(form_tokenType f = Custom \<and> trim (form_customHeaderName f) = [] \<longrightarrow>
      submit f s = (Rejected ''Please enter a custom header name'', s))
   \<and> (\<not> (form_tokenType f = Custom \<and> trim (form_customHeaderName f) = []) \<longrightarrow>
        fst (submit f s) = Saved
        \<and> getSettings (snd (submit f s)) = form_settings f
        \<and> maxTokens (form_settings f) = max 1 (min 5 (form_maxTokens f))
        \<and> 1 \<le> maxTokens (form_settings f) \<and> maxTokens (form_settings f) \<le> 5
        \<and> (tokenType (form_settings f) = Custom \<longrightarrow> customHeaderName (form_settings f) \<noteq> []))
   \<and> getSettings (handle (SaveSettings st) s) = st"
proof (intro conjI impI)
  assume "form_tokenType f = Custom \<and> trim (form_customHeaderName f) = []"
  then show "submit f s = (Rejected ''Please enter a custom header name'', s)"
    by (simp add: submit_def Let_def form_settings_name)
next
  assume a: "\<not> (form_tokenType f = Custom \<and> trim (form_customHeaderName f) = [])"
  then have ok: "\<not> (form_tokenType f = Custom \<and> customHeaderName (form_settings f) = [])"
    by (simp add: form_settings_name)
  have sub: "submit f s = (Saved, SAVE_SETTINGS (form_settings f) s)"
    unfolding submit_def Let_def using ok by (rule if_not_P)
  show "fst (submit f s) = Saved" by (simp add: sub)
  show "getSettings (snd (submit f s)) = form_settings f"
    by (simp add: sub SAVE_SETTINGS_getSettings)
  show "maxTokens (form_settings f) = max 1 (min 5 (form_maxTokens f))"
    by (rule form_settings_maxTokens)
  show "1 \<le> maxTokens (form_settings f)" by (simp add: form_settings_maxTokens)
  show "maxTokens (form_settings f) \<le> 5" by (simp add: form_settings_maxTokens)
  show "customHeaderName (form_settings f) \<noteq> []" if "tokenType (form_settings f) = Custom"
    using that a by (simp add: form_settings_name form_settings_type)
next
  show "getSettings (handle (SaveSettings st) s) = st"
    by (simp add: SAVE_SETTINGS_getSettings)
qed

theorem settings_submit_validation_witness:
  "submit \<lparr>form_tokenType = Custom, form_tokenSource = Headers, form_maxTokens = 3,
           form_customHeaderName = ''   '', form_autoCleanup = True\<rparr> (example_state 2)
     = (Rejected ''Please enter a custom header name'', example_state 2)
   \<and> fst (submit \<lparr>form_tokenType = Custom, form_tokenSource = Headers, form_maxTokens = 3,
                  form_customHeaderName = '' X-Api-Key '', form_autoCleanup = True\<rparr>
             (example_state 2)) = Saved
   \<and> customHeaderName
        (getSettings
           (snd (submit \<lparr>form_tokenType = Custom, form_tokenSource = Headers,
                         form_maxTokens = 3, form_customHeaderName = '' X-Api-Key '',
                         form_autoCleanup = True\<rparr> (example_state 2)))) = ''X-Api-Key''"
proof -
  let ?bad = "\<lparr>form_tokenType = Custom, form_tokenSource = Headers, form_maxTokens = 3,
           form_customHeaderName = ''   '', form_autoCleanup = True\<rparr>"
  let ?good = "\<lparr>form_tokenType = Custom, form_tokenSource = Headers, form_maxTokens = 3,
                  form_customHeaderName = '' X-Api-Key '', form_autoCleanup = True\<rparr>"
  have h1: "form_tokenType ?bad = Custom \<and> trim (form_customHeaderName ?bad) = []"
    by code_simp
  have h2: "\<not> (form_tokenType ?good = Custom \<and> trim (form_customHeaderName ?good) = [])"
    by code_simp
  have n: "customHeaderName (form_settings ?good) = ''X-Api-Key''" by code_simp
  have a: "submit ?bad (example_state 2)
             = (Rejected ''Please enter a custom header name'', example_state 2)"
    using settings_submit_validation [of ?bad "example_state 2" DEFAULT_SETTINGS] h1
    by (rule conjunct1 [THEN mp])
  have "fst (submit ?good (example_state 2)) = Saved
        \<and> getSettings (snd (submit ?good (example_state 2))) = form_settings ?good
        \<and> maxTokens (form_settings ?good) = max 1 (min 5 (form_maxTokens ?good))
        \<and> 1 \<le> maxTokens (form_settings ?good) \<and> maxTokens (form_settings ?good) \<le> 5
        \<and> (tokenType (form_settings ?good) = Custom \<longrightarrow>
              customHeaderName (form_settings ?good) \<noteq> [])"
    using settings_submit_validation [of ?good "example_state 2" DEFAULT_SETTINGS] h2
    by (rule conjunct2 [THEN conjunct1, THEN mp])
  then have b: "fst (submit ?good (example_state 2)) = Saved"
    and c: "getSettings (snd (submit ?good (example_state 2))) = form_settings ?good"
    by (rule conjunct1, rule conjunct2 [THEN conjunct1])
  show ?thesis using a b c n by (simp only: simp_thms)
qed

text \<open>
  The claim as the specification words it fails: a submission with the slider at 0 is
  saved, with capacity 1, and replaces the default policy; and the handler stores a
  capacity of 9 when it is sent one.
\<close>

theorem slider_out_of_range_counterexample:
  "fst (submit \<lparr>form_tokenType = Bearer, form_tokenSource = Headers, form_maxTokens = 0,
                form_customHeaderName = [], form_autoCleanup = True\<rparr> initial_state) = Saved
   \<and> maxTokens (getSettings initial_state) = 5
   \<and> maxTokens
        (getSettings
           (snd (submit \<lparr>form_tokenType = Bearer, form_tokenSource = Headers,
                         form_maxTokens = 0, form_customHeaderName = [],
                         form_autoCleanup = True\<rparr> initial_state))) = 1
   \<and> maxTokens
        (getSettings (handle (SaveSettings (DEFAULT_SETTINGS\<lparr>maxTokens := 9\<rparr>)) initial_state))
      = 9"
  by code_simp

end
